theory Spec2Isabelle
  imports Complex_Main "HOL-Library.Sublist"
begin

section \<open>Data model\<close>

text \<open>
  A price series (a \<^verbatim>\<open>pd.Series\<close> of floats) is the list of its values in index order.
  A missing entry (NaN) is \<open>None\<close>, a valid entry \<open>v\<close> is \<open>Some v\<close>. Floating-point
  numbers are idealised as real numbers: rounding and infinities are outside the model.
  An argument that may be Python's \<^verbatim>\<open>None\<close> is an \<open>option\<close>.
\<close>

type_synonym series = "real option list"

datatype error = ValueError

section \<open>The pandas and numpy operations used by ta.py\<close>

text \<open>
  \<^verbatim>\<open>Series.tail(n)\<close>: \<^verbatim>\<open>iloc[0:0]\<close> for \<open>n = 0\<close>, else \<^verbatim>\<open>iloc[-n:]\<close>: the last \<open>n\<close>
  entries (all of them when the series is shorter) for a positive \<open>n\<close>, and everything
  but the first \<open>-n\<close> entries for a negative one.
\<close>

definition tail :: "int \<Rightarrow> 'a list \<Rightarrow> 'a list" where
  "tail n xs =
     (if n = 0 then []
      else if 0 < n then drop (length xs - nat n) xs
      else drop (nat (- n)) xs)"

text \<open>\<^verbatim>\<open>Series.dropna()\<close>: the valid entries, in order.\<close>

fun dropna :: "series \<Rightarrow> real list" where
  "dropna [] = []"
| "dropna (None # xs) = dropna xs"
| "dropna (Some v # xs) = v # dropna xs"

text \<open>
  \<^verbatim>\<open>Series.ewm(span=span, adjust=False).mean()\<close>. pandas refuses a span below 1 with a
  ValueError; otherwise the centre of mass is \<open>(span - 1) / 2\<close> and the smoothing
  factor is \<open>1 / (1 + com)\<close>.
\<close>

definition get_center_of_mass :: "int \<Rightarrow> error + real" where
  "get_center_of_mass span_n =
     (if span_n < 1 then Inl ValueError else Inr ((real_of_int span_n - 1) / 2))"

definition alpha_of_com :: "real \<Rightarrow> real" where
  "alpha_of_com com = 1 / (1 + com)"

text \<open>
  The loop of pandas' exponentially weighted mean for \<^verbatim>\<open>adjust=False\<close>,
  \<^verbatim>\<open>ignore_na=False\<close> and \<^verbatim>\<open>min_periods=0\<close> (the defaults the call leaves in place).
  The state is the running average \<open>weighted\<close> (missing until the first valid entry) and
  the weight \<open>old_wt\<close> of that average. At a missing entry the average is carried
  forward and its weight decays by \<open>1 - \<alpha>\<close>; at a valid entry the new average is
  \<open>(old_wt * weighted + \<alpha> * cur) / (old_wt + \<alpha>)\<close> with the decayed weight, and the
  weight is reset to 1. Every position outputs the running average.
\<close>

fun ewm_loop :: "real \<Rightarrow> real option \<Rightarrow> real \<Rightarrow> series \<Rightarrow> series" where
  "ewm_loop \<alpha> weighted old_wt [] = []"
| "ewm_loop \<alpha> None old_wt (cur # rest) = cur # ewm_loop \<alpha> cur old_wt rest"
| "ewm_loop \<alpha> (Some w) old_wt (None # rest) =
     Some w # ewm_loop \<alpha> (Some w) (old_wt * (1 - \<alpha>)) rest"
| "ewm_loop \<alpha> (Some w) old_wt (Some cur # rest) =
     (let wt = old_wt * (1 - \<alpha>);
          w' = (wt * w + \<alpha> * cur) / (wt + \<alpha>)
      in Some w' # ewm_loop \<alpha> (Some w') 1 rest)"

fun ewm_mean :: "real \<Rightarrow> series \<Rightarrow> series" where
  "ewm_mean \<alpha> [] = []"
| "ewm_mean \<alpha> (x # xs) = x # ewm_loop \<alpha> x 1 xs"

text \<open>
  Subtraction of two series over the same index: pointwise, missing where either side
  is missing.
\<close>

fun nan_sub :: "real option \<Rightarrow> real option \<Rightarrow> real option" where
  "nan_sub (Some a) (Some b) = Some (a - b)"
| "nan_sub _ _ = None"

definition series_sub :: "series \<Rightarrow> series \<Rightarrow> series" where
  "series_sub a b = map2 nan_sub a b"

text \<open>\<^verbatim>\<open>np.arange(k)\<close>: the positions \<open>0, 1, ..., k - 1\<close>.\<close>

definition arange :: "nat \<Rightarrow> real list" where
  "arange k = map real [0..<k]"

text \<open>
  \<^verbatim>\<open>np.polyfit(x, y, 1)\<close>: the coefficients (slope first, then intercept) of the
  degree-1 least-squares fit, in exact arithmetic the solution of the normal equations
  (numpy solves the same problem by a singular value decomposition). The abscissae
  ta.py passes are at least two distinct positions, so the determinant is not zero.
\<close>

definition polyfit1 :: "real list \<Rightarrow> real list \<Rightarrow> real \<times> real" where
  "polyfit1 xs ys =
     (let n = real (length xs);
          sx = sum_list xs;
          sy = sum_list ys;
          sxx = sum_list (map2 (*) xs xs);
          sxy = sum_list (map2 (*) xs ys);
          m = (n * sxy - sx * sy) / (n * sxx - sx * sx)
      in (m, (sy - m * sx) / n))"

section \<open>ta.py\<close>

definition ema :: "series option \<Rightarrow> int \<Rightarrow> error + series" where
  "ema series span_n =
     (case series of
        None \<Rightarrow> Inr []
      | Some s \<Rightarrow>
          if s = [] then Inr []
          else (case get_center_of_mass span_n of
                  Inl e \<Rightarrow> Inl e
                | Inr com \<Rightarrow> Inr (ewm_mean (alpha_of_com com) s)))"

definition macd :: "series option \<Rightarrow> int \<Rightarrow> int \<Rightarrow> int \<Rightarrow> error + (series \<times> series \<times> series)" where
  "macd series fast slow signal =
     (case series of
        None \<Rightarrow> Inr ([], [], [])
      | Some s \<Rightarrow>
          if s = [] then Inr ([], [], [])
          else (case ema (Some s) fast of
                  Inl e \<Rightarrow> Inl e
                | Inr ema_fast \<Rightarrow>
                    (case ema (Some s) slow of
                       Inl e \<Rightarrow> Inl e
                     | Inr ema_slow \<Rightarrow>
                         (let macd_line = series_sub ema_fast ema_slow
                          in case ema (Some macd_line) signal of
                               Inl e \<Rightarrow> Inl e
                             | Inr signal_line \<Rightarrow>
                                 Inr (macd_line, signal_line,
                                      series_sub macd_line signal_line)))))"

text \<open>
  Lines 59 to 62 of ta.py: the levels of the selected values \<open>w\<close>, the sentinel when
  there is none.
\<close>

fun sr_levels :: "real list \<Rightarrow> real \<times> real" where
  "sr_levels [] = (0, 0)"
| "sr_levels (v # vs) = (fold min vs v, fold max vs v)"

definition support_resistance :: "series option \<Rightarrow> int \<Rightarrow> real \<times> real" where
  "support_resistance series window =
     (case series of
        None \<Rightarrow> (0, 0)
      | Some s \<Rightarrow>
          if s = [] then (0, 0)
          else sr_levels (dropna (tail window s)))"

text \<open>
  Lines 81 to 91 of ta.py: the fit over the selected values \<open>y\<close> and its label.
\<close>

definition trend_fit :: "real list \<Rightarrow> real \<Rightarrow> string \<times> real" where
  "trend_fit y tol =
     (if length y < 2 then (''Sideways'', 0)
      else (let x = arange (length y);
                slope = fst (polyfit1 x y)
            in if slope > tol then (''Up'', slope)
               else if slope < - tol then (''Down'', slope)
               else (''Sideways'', slope)))"

definition trend_direction :: "series option \<Rightarrow> int \<Rightarrow> real \<Rightarrow> string \<times> real" where
  "trend_direction series window tol =
     (case series of
        None \<Rightarrow> (''Sideways'', 0)
      | Some s \<Rightarrow>
          if s = [] then (''Sideways'', 0)
          else trend_fit (dropna (tail window s)) tol)"

section \<open>The specification's reading of the window\<close>

text \<open>
  The trailing \<open>window\<close> most-recent valid points: missing entries are dropped first,
  the window is taken afterwards.
\<close>

definition valid_window :: "int \<Rightarrow> series \<Rightarrow> real list" where
  "valid_window window s = tail window (dropna s)"

text \<open>The sum of squared residuals of the line \<open>a * x + b\<close> on the points \<open>(x, y)\<close>.\<close>

definition sse :: "real list \<Rightarrow> real list \<Rightarrow> real \<Rightarrow> real \<Rightarrow> real" where
  "sse xs ys a b = sum_list (map2 (\<lambda>x y. (y - (a * x + b))\<^sup>2) xs ys)"

text \<open>
  The line \<open>m * x + c\<close> is a least-squares line of the points when no other line has a
  smaller sum of squared residuals.
\<close>

definition least_squares :: "real list \<Rightarrow> real list \<Rightarrow> real \<Rightarrow> real \<Rightarrow> bool" where
  "least_squares xs ys m c \<longleftrightarrow> (\<forall>a b. sse xs ys m c \<le> sse xs ys a b)"

text \<open>
  A linear series of \<open>n\<close> points without missing entries: the value at position \<open>i\<close>
  is \<open>a + b * i\<close>. It is strictly increasing when \<open>b > 0\<close>.
\<close>

definition linear_series :: "real \<Rightarrow> real \<Rightarrow> nat \<Rightarrow> series" where
  "linear_series a b n = map (\<lambda>i. Some (a + b * real i)) [0..<n]"

section \<open>Checks of the model\<close>

text \<open>
  The example of the pandas documentation for \<^verbatim>\<open>ewm(com=0.5, adjust=False).mean()\<close> on
  \<^verbatim>\<open>[0, 1, 2, NaN, 4]\<close>: 0, 0.666667, 1.555556, 1.555556, 3.650794.
\<close>

lemma ewm_mean_pandas_doc:
  "ewm_mean (alpha_of_com (1/2)) [Some 0, Some 1, Some 2, None, Some 4]
     = [Some 0, Some (2/3), Some (14/9), Some (14/9), Some (230/63)]"
  by (simp add: alpha_of_com_def Let_def)

section \<open>Exponentially weighted means\<close>

lemma alpha_of_span:
  assumes "1 \<le> span_n"
  shows "get_center_of_mass span_n = Inr ((real_of_int span_n - 1) / 2)"
    and "alpha_of_com ((real_of_int span_n - 1) / 2) = 2 / (real_of_int span_n + 1)"
  using assms by (simp_all add: get_center_of_mass_def alpha_of_com_def field_simps)

lemma length_ewm_loop: "length (ewm_loop \<alpha> w ow xs) = length xs"
  by (induction \<alpha> w ow xs rule: ewm_loop.induct) (simp_all add: Let_def)

lemma length_ewm_mean: "length (ewm_mean \<alpha> xs) = length xs"
  by (cases xs) (simp_all add: length_ewm_loop)

lemma ema_ok:
  assumes "s \<noteq> []" "1 \<le> span_n"
  shows "ema (Some s) span_n = Inr (ewm_mean (2 / (real_of_int span_n + 1)) s)"
  using assms alpha_of_span[OF assms(2)] by (simp add: ema_def)

section \<open>The least-squares fit\<close>

lemma sse_expand:
  assumes "length xs = length ys"
  shows "sse xs ys a b =
     sum_list (map2 (*) ys ys) - 2 * a * sum_list (map2 (*) xs ys) - 2 * b * sum_list ys
     + a\<^sup>2 * sum_list (map2 (*) xs xs) + 2 * a * b * sum_list xs + real (length xs) * b\<^sup>2"
  using assms unfolding sse_def
  by (induction xs ys rule: list_induct2) (simp_all add: power2_eq_square algebra_simps)

lemma quad_expand:
  "sum_list (map (\<lambda>x. (u * x + v)\<^sup>2) xs) =
     u\<^sup>2 * sum_list (map2 (*) xs xs) + 2 * u * v * sum_list xs + real (length xs) * v\<^sup>2"
  by (induction xs) (simp_all add: power2_eq_square algebra_simps)

lemma quad_nonneg: "0 \<le> sum_list (map (\<lambda>x. (u * x + v)\<^sup>2) (xs :: real list))"
  by (induction xs) simp_all

lemma polyfit1_normal:
  assumes "xs \<noteq> []"
    and "real (length xs) * sum_list (map2 (*) xs xs) - sum_list xs * sum_list xs \<noteq> 0"
    and "polyfit1 xs ys = (m, c)"
  shows "m * sum_list (map2 (*) xs xs) + c * sum_list xs = sum_list (map2 (*) xs ys)"
    and "m * sum_list xs + real (length xs) * c = sum_list ys"
proof -
  define n where "n = real (length xs)"
  define sx where "sx = sum_list xs"
  define sy where "sy = sum_list ys"
  define sxx where "sxx = sum_list (map2 (*) xs xs)"
  define sxy where "sxy = sum_list (map2 (*) xs ys)"
  have n: "n \<noteq> 0" using assms(1) by (simp add: n_def)
  have d: "n * sxx - sx * sx \<noteq> 0" using assms(2) by (simp add: n_def sx_def sxx_def)
  have m: "m = (n * sxy - sx * sy) / (n * sxx - sx * sx)"
    and c: "c = (sy - m * sx) / n"
    using assms(3) by (auto simp: polyfit1_def Let_def n_def sx_def sy_def sxx_def sxy_def)
  have md: "m * (n * sxx - sx * sx) = n * sxy - sx * sy" using d by (simp add: m)
  have cn: "c * n = sy - m * sx" using n by (simp add: c)
  show 2: "m * sum_list xs + real (length xs) * c = sum_list ys"
    using cn by (simp add: n_def sx_def sy_def algebra_simps)
  have "n * (m * sxx + c * sx) = m * (n * sxx - sx * sx) + sx * (m * sx + c * n)"
    by (simp add: algebra_simps)
  also have "\<dots> = n * sxy" using md cn by (simp add: algebra_simps)
  finally have "m * sxx + c * sx = sxy" using n by simp
  then show "m * sum_list (map2 (*) xs xs) + c * sum_list xs = sum_list (map2 (*) xs ys)"
    by (simp add: sx_def sxx_def sxy_def)
qed

lemma sse_decompose:
  assumes "length xs = length ys"
    and "m * sum_list (map2 (*) xs xs) + c * sum_list xs = sum_list (map2 (*) xs ys)"
    and "m * sum_list xs + real (length xs) * c = sum_list ys"
  shows "sse xs ys a b = sse xs ys m c + sum_list (map (\<lambda>x. ((a - m) * x + (b - c))\<^sup>2) xs)"
  unfolding sse_expand[OF assms(1)] quad_expand assms(2)[symmetric] assms(3)[symmetric]
  by (simp add: power2_eq_square algebra_simps)

lemma sum_arange: "2 * sum_list (arange k) = real k * (real k - 1)"
  by (induction k) (simp_all add: arange_def algebra_simps)

lemma sumsq_arange:
  "6 * sum_list (map2 (*) (arange k) (arange k)) = (real k - 1) * real k * (2 * real k - 1)"
  by (induction k) (simp_all add: arange_def algebra_simps)

lemma det_arange:
  "12 * (real k * sum_list (map2 (*) (arange k) (arange k)) - sum_list (arange k) * sum_list (arange k))
     = (real k)\<^sup>2 * ((real k)\<^sup>2 - 1)"
proof -
  define s1 where "s1 = sum_list (arange k)"
  define s2 where "s2 = sum_list (map2 (*) (arange k) (arange k))"
  have a: "2 * s1 = real k * (real k - 1)" unfolding s1_def by (rule sum_arange)
  have b: "6 * s2 = (real k - 1) * real k * (2 * real k - 1)" unfolding s2_def by (rule sumsq_arange)
  have "12 * (real k * s2 - s1 * s1) = 2 * real k * (6 * s2) - 3 * (2 * s1) * (2 * s1)"
    by (simp add: algebra_simps)
  also have "\<dots> = (real k)\<^sup>2 * ((real k)\<^sup>2 - 1)"
    unfolding a b by (simp add: power2_eq_square algebra_simps)
  finally show ?thesis unfolding s1_def s2_def .
qed

lemma det_arange_pos:
  assumes "2 \<le> k"
  shows "0 < real k * sum_list (map2 (*) (arange k) (arange k)) - sum_list (arange k) * sum_list (arange k)"
proof -
  have "1 < real k" using assms by simp
  then have "1 < (real k)\<^sup>2" by (simp add: power2_eq_square less_1_mult)
  then have "0 < (real k)\<^sup>2 * ((real k)\<^sup>2 - 1)"
    using assms by (intro mult_pos_pos) simp_all
  then have "0 < 12 * (real k * sum_list (map2 (*) (arange k) (arange k))
      - sum_list (arange k) * sum_list (arange k))"
    by (simp only: det_arange)
  then show ?thesis by (simp only: zero_less_mult_iff) simp
qed

section \<open>Windows\<close>

lemma tail_Nil: "tail n [] = []"
  by (simp add: tail_def)

lemma dropna_map_Some: "dropna (map Some vs) = vs"
  by (induction vs) simp_all

lemma dropna_Nil_iff: "dropna xs = [] \<longleftrightarrow> set xs \<subseteq> {None}"
  by (induction xs rule: dropna.induct) simp_all

lemma sr_levels_Min_Max:
  assumes "w \<noteq> []"
  shows "sr_levels w = (Min (set w), Max (set w))"
proof (cases w)
  case Nil
  then show ?thesis using assms by simp
next
  case (Cons v vs)
  show ?thesis
    unfolding Cons by (simp only: sr_levels.simps Min.set_eq_fold Max.set_eq_fold)
qed

lemma window_nonempty_series: "dropna (tail window s) \<noteq> [] \<Longrightarrow> s \<noteq> []"
  by (auto simp: tail_Nil)

section \<open>Sentinels and levels\<close>

text \<open>
  C4: on an empty input series no operation raises and each returns its sentinel: ema an
  empty series, macd three empty series, support_resistance the pair (0, 0),
  trend_direction the label Sideways with slope 0 (the same holds when the argument is
  Python's None). support_resistance also returns (0, 0) when the last \<open>window\<close> entries
  of the series are all missing.
\<close>

theorem empty_input_sentinels:
  "ema (Some []) span_n = Inr []
   \<and> ema None span_n = Inr []
   \<and> macd (Some []) fast slow signal = Inr ([], [], [])
   \<and> macd None fast slow signal = Inr ([], [], [])
   \<and> support_resistance (Some []) window = (0, 0)
   \<and> support_resistance None window = (0, 0)
   \<and> trend_direction (Some []) window tol = (''Sideways'', 0)
   \<and> trend_direction None window tol = (''Sideways'', 0)
   \<and> (set (tail window s) \<subseteq> {None} \<longrightarrow> support_resistance (Some s) window = (0, 0))"
proof -
  have "support_resistance (Some s) window = (0, 0)" if "set (tail window s) \<subseteq> {None}"
  proof -
    from that have "dropna (tail window s) = []" by (simp only: dropna_Nil_iff)
    then show ?thesis by (simp add: support_resistance_def)
  qed
  then show ?thesis
    by (simp add: ema_def macd_def support_resistance_def trend_direction_def)
qed

theorem empty_input_sentinels_witness:
  "set (tail 2 [Some 1, None, None :: real option]) \<subseteq> {None}
   \<and> support_resistance (Some [Some 1, None, None]) 2 = (0, 0)
   \<and> ema (Some []) 9 = Inr []
   \<and> macd (Some []) 12 26 9 = Inr ([], [], [])
   \<and> trend_direction (Some []) 10 (1 / 10 ^ 6) = (''Sideways'', 0)"
proof -
  have h: "set (tail 2 [Some 1, None, None :: real option]) \<subseteq> {None}"
    by (simp add: tail_def)
  show ?thesis
    using h empty_input_sentinels [of 9 12 26 9 2 "1 / 10 ^ 6" "[Some 1, None, None]"]
      empty_input_sentinels [of 9 12 26 9 10 "1 / 10 ^ 6" "[]"]
    by simp
qed

text \<open>
  C5: when the last \<open>window\<close> entries of the series hold at least one valid point,
  support_resistance returns the least and the greatest of the valid points among them,
  and the support is at most the resistance.
\<close>

theorem support_le_resistance:
  assumes "0 < window" and "dropna (tail window s) \<noteq> []"
  shows "support_resistance (Some s) window
           = (Min (set (dropna (tail window s))), Max (set (dropna (tail window s))))
         \<and> fst (support_resistance (Some s) window) \<le> snd (support_resistance (Some s) window)"
proof -
  let ?w = "dropna (tail window s)"
  have s: "s \<noteq> []" using assms(2) by (rule window_nonempty_series)
  have eq: "support_resistance (Some s) window = (Min (set ?w), Max (set ?w))"
    using s sr_levels_Min_Max[OF assms(2)] by (simp add: support_resistance_def)
  obtain v where v: "v \<in> set ?w"
    using assms(2) by (cases ?w) auto
  have "Min (set ?w) \<le> v" and "v \<le> Max (set ?w)"
    using v by simp_all
  then have "Min (set ?w) \<le> Max (set ?w)"
    by (rule order_trans)
  then show ?thesis using eq by simp
qed

theorem support_le_resistance_witness:
  "(0::int) < 3 \<and> dropna (tail 3 [Some 3, None, Some 1, Some 2]) \<noteq> []
   \<and> support_resistance (Some [Some 3, None, Some 1, Some 2]) 3 = (1, 2)
   \<and> fst (support_resistance (Some [Some 3, None, Some 1, Some 2]) 3)
       \<le> snd (support_resistance (Some [Some 3, None, Some 1, Some 2]) 3)"
proof -
  have h1: "(0::int) < 3" by simp
  have h2: "dropna (tail 3 [Some 3, None, Some 1, Some 2]) \<noteq> []"
    by (simp add: tail_def)
  have v: "dropna (tail 3 [Some 3, None, Some 1, Some 2]) = [1, 2]"
    by (simp add: tail_def)
  show ?thesis
    using h1 h2 support_le_resistance [OF h1 h2] by (simp add: v)
qed

text \<open>
  C10: when the last \<open>window\<close> entries of the series hold exactly one valid point \<open>p\<close>,
  support_resistance returns (p, p), not the sentinel, while trend_direction on the
  same input returns the label Sideways with slope 0.
\<close>

theorem single_point_window:
  assumes "0 < window" and "dropna (tail window s) = [p]"
  shows "support_resistance (Some s) window = (p, p)
         \<and> trend_direction (Some s) window tol = (''Sideways'', 0)"
proof -
  have "dropna (tail window s) \<noteq> []" using assms(2) by simp
  then have "s \<noteq> []" by (rule window_nonempty_series)
  then show ?thesis
    using assms(2) by (simp add: support_resistance_def trend_direction_def trend_fit_def)
qed

theorem single_point_window_witness:
  "(0::int) < 3 \<and> dropna (tail 3 [Some 4, None, Some 7, None]) = [7]
   \<and> support_resistance (Some [Some 4, None, Some 7, None]) 3 = (7, 7)
   \<and> trend_direction (Some [Some 4, None, Some 7, None]) 3 (1 / 10 ^ 6) = (''Sideways'', 0)"
proof -
  have h1: "(0::int) < 3" by simp
  have h2: "dropna (tail 3 [Some 4, None, Some 7, None]) = [7]"
    by (simp add: tail_def)
  show ?thesis
    using h1 h2 single_point_window [OF h1 h2, of "1 / 10 ^ 6"] by simp
qed

section \<open>EMA and MACD\<close>

lemma ewm_step_one:
  "(1 * (1 - \<alpha>) * w + \<alpha> * b) / (1 * (1 - \<alpha>) + \<alpha>) = b * \<alpha> + w * (1 - \<alpha>)" for \<alpha> :: real
  by (simp add: algebra_simps)

lemma ewm_loop_head:
  assumes "xs \<noteq> []" and "xs ! 0 = Some b"
  shows "ewm_loop \<alpha> (Some w) 1 xs ! 0 = Some (b * \<alpha> + w * (1 - \<alpha>))"
proof -
  obtain rest where xs: "xs = Some b # rest"
    using assms by (cases xs) auto
  show ?thesis
    unfolding xs by (simp add: Let_def ewm_step_one)
qed

lemma ewm_loop_adjacent:
  assumes "weighted = None \<longrightarrow> old_wt = 1"
    and "Suc i < length xs" and "xs ! i = Some a" and "xs ! Suc i = Some b"
  shows "\<exists>w. ewm_loop \<alpha> weighted old_wt xs ! i = Some w
           \<and> ewm_loop \<alpha> weighted old_wt xs ! Suc i = Some (b * \<alpha> + w * (1 - \<alpha>))"
  using assms
proof (induction \<alpha> weighted old_wt xs arbitrary: i rule: ewm_loop.induct)
  case (1 \<alpha> weighted old_wt)
  then show ?case by simp
next
  case (2 \<alpha> old_wt cur rest)
  have ow: "old_wt = 1" using "2.prems"(1) by simp
  show ?case
  proof (cases i)
    case 0
    have cur: "cur = Some a" using "2.prems"(3) 0 by simp
    have ne: "rest \<noteq> []" and hd: "rest ! 0 = Some b"
      using "2.prems"(2,4) 0 by auto
    show ?thesis
      using ewm_loop_head[OF ne hd, of \<alpha> a] by (simp add: 0 cur ow)
  next
    case (Suc j)
    have "\<exists>w. ewm_loop \<alpha> cur old_wt rest ! j = Some w
           \<and> ewm_loop \<alpha> cur old_wt rest ! Suc j = Some (b * \<alpha> + w * (1 - \<alpha>))"
      using "2.prems" Suc ow by (intro "2.IH") simp_all
    then show ?thesis by (simp add: Suc)
  qed
next
  case (3 \<alpha> w old_wt rest)
  show ?case
  proof (cases i)
    case 0
    then show ?thesis using "3.prems"(3) by simp
  next
    case (Suc j)
    have "\<exists>w'. ewm_loop \<alpha> (Some w) (old_wt * (1 - \<alpha>)) rest ! j = Some w'
           \<and> ewm_loop \<alpha> (Some w) (old_wt * (1 - \<alpha>)) rest ! Suc j = Some (b * \<alpha> + w' * (1 - \<alpha>))"
      using "3.prems" Suc by (intro "3.IH") simp_all
    then show ?thesis by (simp add: Suc)
  qed
next
  case (4 \<alpha> w old_wt cur rest)
  define wt where "wt = old_wt * (1 - \<alpha>)"
  define w' where "w' = (wt * w + \<alpha> * cur) / (wt + \<alpha>)"
  have unf: "ewm_loop \<alpha> (Some w) old_wt (Some cur # rest) = Some w' # ewm_loop \<alpha> (Some w') 1 rest"
    by (simp add: Let_def wt_def w'_def)
  show ?case
  proof (cases i)
    case 0
    have ne: "rest \<noteq> []" and hd: "rest ! 0 = Some b"
      using "4.prems"(2,4) 0 by auto
    show ?thesis
      unfolding unf using ewm_loop_head[OF ne hd, of \<alpha> w'] by (simp add: 0)
  next
    case (Suc j)
    have "\<exists>v. ewm_loop \<alpha> (Some w') 1 rest ! j = Some v
           \<and> ewm_loop \<alpha> (Some w') 1 rest ! Suc j = Some (b * \<alpha> + v * (1 - \<alpha>))"
      using "4.prems" Suc by (intro "4.IH"[OF wt_def w'_def]) simp_all
    then show ?thesis unfolding unf by (simp add: Suc)
  qed
qed

lemma ewm_mean_adjacent:
  assumes "Suc i < length xs" and "xs ! i = Some a" and "xs ! Suc i = Some b"
  shows "\<exists>w. ewm_mean \<alpha> xs ! i = Some w
           \<and> ewm_mean \<alpha> xs ! Suc i = Some (b * \<alpha> + w * (1 - \<alpha>))"
proof -
  obtain x rest where xs: "xs = x # rest"
    using assms(1) by (cases xs) auto
  show ?thesis
  proof (cases i)
    case 0
    have x: "x = Some a" using assms(2) 0 xs by simp
    have ne: "rest \<noteq> []" and hd: "rest ! 0 = Some b"
      using assms(1,3) 0 xs by auto
    show ?thesis
      using ewm_loop_head[OF ne hd, of \<alpha> a] by (simp add: xs 0 x)
  next
    case (Suc j)
    have "\<exists>w. ewm_loop \<alpha> x 1 rest ! j = Some w
           \<and> ewm_loop \<alpha> x 1 rest ! Suc j = Some (b * \<alpha> + w * (1 - \<alpha>))"
      using assms Suc xs by (intro ewm_loop_adjacent) simp_all
    then show ?thesis by (simp add: xs Suc)
  qed
qed

lemma ewm_mean_first: "xs \<noteq> [] \<Longrightarrow> ewm_mean \<alpha> xs ! 0 = xs ! 0"
  by (cases xs) simp_all



lemma ewm_loop_alpha_one:
  "i < length xs \<Longrightarrow> xs ! i \<noteq> None \<Longrightarrow> ewm_loop 1 w ow xs ! i = xs ! i"
proof (induction "1::real" w ow xs arbitrary: i rule: ewm_loop.induct)
  case (1 weighted old_wt)
  then show ?case by simp
next
  case (2 old_wt cur rest)
  then show ?case by (cases i) simp_all
next
  case (3 w old_wt rest)
  then show ?case by (cases i) simp_all
next
  case (4 w old_wt cur rest)
  then show ?case by (cases i) (simp_all add: Let_def)
qed

lemma ewm_mean_alpha_one:
  "i < length xs \<Longrightarrow> xs ! i \<noteq> None \<Longrightarrow> ewm_mean 1 xs ! i = xs ! i"
  by (cases xs; cases i) (simp_all add: ewm_loop_alpha_one)

text \<open>
  C2 (amended): for every non-empty price series and every span of at least 1, ema
  raises no error and returns a series of the length of the input whose first entry is
  the first input entry, and at every later index \<open>i\<close> at which the input is valid and
  the input at \<open>i - 1\<close> is valid too, the output is
  \<open>input[i] * \<alpha> + output[i-1] * (1 - \<alpha>)\<close> with \<open>\<alpha> = 2 / (span + 1)\<close>. On a series
  without missing entries this is the recursion at every index \<open>i > 0\<close>.
\<close>

theorem ema_recursion_adjacent_valid:
  assumes "s \<noteq> []" and "1 \<le> span_n"
  shows "\<exists>out. ema (Some s) span_n = Inr out
           \<and> length out = length s
           \<and> out ! 0 = s ! 0
           \<and> (\<forall>i a b. 0 < i \<and> i < length s \<and> s ! (i - 1) = Some a \<and> s ! i = Some b \<longrightarrow>
                 (\<exists>w. out ! (i - 1) = Some w
                      \<and> out ! i = Some (b * (2 / (real_of_int span_n + 1))
                                        + w * (1 - 2 / (real_of_int span_n + 1)))))"
proof -
  let ?\<alpha> = "2 / (real_of_int span_n + 1)"
  have e: "ema (Some s) span_n = Inr (ewm_mean ?\<alpha> s)"
    using assms by (rule ema_ok)
  have l: "length (ewm_mean ?\<alpha> s) = length s" by (rule length_ewm_mean)
  have f: "ewm_mean ?\<alpha> s ! 0 = s ! 0" using assms(1) by (rule ewm_mean_first)
  have r: "\<exists>w. ewm_mean ?\<alpha> s ! (i - 1) = Some w
             \<and> ewm_mean ?\<alpha> s ! i = Some (b * ?\<alpha> + w * (1 - ?\<alpha>))"
    if h: "0 < i \<and> i < length s \<and> s ! (i - 1) = Some a \<and> s ! i = Some b" for i a b
  proof -
    obtain j where j: "i = Suc j" using h by (cases i) auto
    have "\<exists>w. ewm_mean ?\<alpha> s ! j = Some w
             \<and> ewm_mean ?\<alpha> s ! Suc j = Some (b * ?\<alpha> + w * (1 - ?\<alpha>))"
      using h j by (intro ewm_mean_adjacent) simp_all
    then show ?thesis by (simp add: j)
  qed
  show ?thesis
    using e l f r by (intro exI[of _ "ewm_mean ?\<alpha> s"] conjI allI impI)
qed

theorem ema_recursion_adjacent_valid_witness:
  "[Some (4::real), Some 8, None, Some 2] \<noteq> [] \<and> (1::int) \<le> 3
   \<and> (\<exists>out. ema (Some [Some (4::real), Some 8, None, Some 2]) 3 = Inr out
           \<and> length out = length [Some (4::real), Some 8, None, Some 2]
           \<and> out ! 0 = [Some (4::real), Some 8, None, Some 2] ! 0
           \<and> (\<forall>i a b. 0 < i \<and> i < length [Some (4::real), Some 8, None, Some 2]
                   \<and> [Some (4::real), Some 8, None, Some 2] ! (i - 1) = Some a
                   \<and> [Some (4::real), Some 8, None, Some 2] ! i = Some b \<longrightarrow>
                 (\<exists>w. out ! (i - 1) = Some w
                      \<and> out ! i = Some (b * (2 / (real_of_int 3 + 1))
                                        + w * (1 - 2 / (real_of_int 3 + 1))))))"
proof -
  have h1: "[Some (4::real), Some 8, None, Some 2] \<noteq> []" by simp
  have h2: "(1::int) \<le> 3" by simp
  note c = ema_recursion_adjacent_valid [OF h1 h2]
  show ?thesis
    by (intro conjI) (rule h1, rule h2, rule c)
qed

theorem ema_recursion_missing_counterexample:
  "ema (Some [Some 1, None, Some 3]) 3 = Inr [Some 1, Some 1, Some (7 / 3)]
   \<and> (7 / 3 :: real) \<noteq> 3 * (2 / (real_of_int 3 + 1)) + 1 * (1 - 2 / (real_of_int 3 + 1))"
  by (simp add: ema_def get_center_of_mass_def alpha_of_com_def Let_def)



text \<open>
  C9 (amended): for every non-empty price series, ema with span 1 raises no error and
  returns a series of the length of the input that equals the input at every index
  where the input is valid; a series without missing entries is returned unchanged.
\<close>

theorem ema_span_one:
  assumes "s \<noteq> []"
  shows "\<exists>out. ema (Some s) 1 = Inr out
           \<and> length out = length s
           \<and> (\<forall>i<length s. s ! i \<noteq> None \<longrightarrow> out ! i = s ! i)
           \<and> (None \<notin> set s \<longrightarrow> out = s)"
proof -
  have e: "ema (Some s) 1 = Inr (ewm_mean 1 s)"
    using ema_ok[OF assms, of 1] by simp
  have l: "length (ewm_mean 1 s) = length s" by (rule length_ewm_mean)
  have p: "\<forall>i<length s. s ! i \<noteq> None \<longrightarrow> ewm_mean 1 s ! i = s ! i"
    by (simp add: ewm_mean_alpha_one)
  have "ewm_mean 1 s = s" if "None \<notin> set s"
  proof (rule nth_equalityI)
    show "length (ewm_mean 1 s) = length s" by (rule l)
  next
    fix i assume "i < length (ewm_mean 1 s)"
    then have i: "i < length s" by (simp add: l)
    then have "s ! i \<in> set s" by simp
    then have "s ! i \<noteq> None" using that by metis
    then show "ewm_mean 1 s ! i = s ! i" using i by (rule ewm_mean_alpha_one[rotated])
  qed
  then show ?thesis using e l p by blast
qed

theorem ema_span_one_witness:
  "[Some (5::real), None, Some 2] \<noteq> []
   \<and> (\<exists>out. ema (Some [Some (5::real), None, Some 2]) 1 = Inr out
             \<and> length out = length [Some (5::real), None, Some 2]
             \<and> (\<forall>i<length [Some (5::real), None, Some 2].
                   [Some (5::real), None, Some 2] ! i \<noteq> None \<longrightarrow> out ! i = [Some (5::real), None, Some 2] ! i)
             \<and> (None \<notin> set [Some (5::real), None, Some 2] \<longrightarrow> out = [Some (5::real), None, Some 2]))"
proof -
  have h: "[Some (5::real), None, Some 2] \<noteq> []" by simp
  note c = ema_span_one [OF h]
  show ?thesis
    by (intro conjI) (rule h, rule c)
qed

theorem ema_span_one_missing_counterexample:
  "ema (Some [Some 1, None]) 1 = Inr [Some 1, Some 1]
   \<and> ema (Some [Some 1, None]) 1 \<noteq> Inr [Some 1, None]"
  by (simp add: ema_def get_center_of_mass_def alpha_of_com_def)

section \<open>The fit on positions\<close>

lemma length_arange: "length (arange k) = k"
  by (simp add: arange_def)

lemma arange_nonempty: "2 \<le> k \<Longrightarrow> arange k \<noteq> []"
  by (auto simp: arange_def)

lemma polyfit1_arange_decompose:
  assumes "2 \<le> length ys" and "polyfit1 (arange (length ys)) ys = (m, c)"
  shows "sse (arange (length ys)) ys a b =
           sse (arange (length ys)) ys m c
           + sum_list (map (\<lambda>x. ((a - m) * x + (b - c))\<^sup>2) (arange (length ys)))"
proof -
  let ?xs = "arange (length ys)"
  have ne: "?xs \<noteq> []" using assms(1) by (rule arange_nonempty)
  have det: "real (length ?xs) * sum_list (map2 (*) ?xs ?xs) - sum_list ?xs * sum_list ?xs \<noteq> 0"
    using det_arange_pos[OF assms(1)] by (simp add: length_arange)
  have len: "length ?xs = length ys" by (rule length_arange)
  show ?thesis
    using len polyfit1_normal[OF ne det assms(2)] by (rule sse_decompose)
qed

lemma polyfit1_arange_least_squares:
  assumes "2 \<le> length ys" and "polyfit1 (arange (length ys)) ys = (m, c)"
  shows "least_squares (arange (length ys)) ys m c"
  unfolding least_squares_def
proof (intro allI)
  fix a b
  have "0 \<le> sum_list (map (\<lambda>x. ((a - m) * x + (b - c))\<^sup>2) (arange (length ys)))"
    by (rule quad_nonneg)
  then show "sse (arange (length ys)) ys m c \<le> sse (arange (length ys)) ys a b"
    unfolding polyfit1_arange_decompose[OF assms, of a b] by linarith
qed

lemma quad_zero_arange:
  assumes "2 \<le> k" and "sum_list (map (\<lambda>x. (u * x + v)\<^sup>2) (arange k)) = 0"
  shows "u = 0"
proof -
  have "\<forall>t \<in> set (map (\<lambda>x. (u * x + v)\<^sup>2) (arange k)). t = 0"
    using assms(2) by (subst (asm) sum_list_nonneg_eq_0_iff) auto
  then have z: "(u * x + v)\<^sup>2 = 0" if "x \<in> set (arange k)" for x
    using that by auto
  have s: "set (arange k) = real ` {0..<k}"
    by (simp add: arange_def)
  have "real 0 \<in> real ` {0..<k}" and "real 1 \<in> real ` {0..<k}"
    using assms(1) by (intro imageI; simp)+
  then have m0: "real 0 \<in> set (arange k)" and m1: "real 1 \<in> set (arange k)"
    by (simp_all only: s)
  have "(u * real 0 + v)\<^sup>2 = 0" by (rule z[OF m0])
  moreover have "(u * real 1 + v)\<^sup>2 = 0" by (rule z[OF m1])
  ultimately show ?thesis by simp
qed

lemma polyfit1_arange_unique:
  assumes "2 \<le> length ys" and "polyfit1 (arange (length ys)) ys = (m, c)"
    and "least_squares (arange (length ys)) ys a b"
  shows "a = m"
proof -
  let ?xs = "arange (length ys)"
  let ?q = "sum_list (map (\<lambda>x. ((a - m) * x + (b - c))\<^sup>2) ?xs)"
  have d: "sse ?xs ys a b = sse ?xs ys m c + ?q"
    using assms(1,2) by (rule polyfit1_arange_decompose)
  have "sse ?xs ys a b \<le> sse ?xs ys m c"
    using assms(3) unfolding least_squares_def by blast
  with d have "?q \<le> 0" by linarith
  moreover have "0 \<le> ?q" by (rule quad_nonneg)
  ultimately have q0: "?q = 0" by (rule antisym)
  have "a - m = 0" using assms(1) q0 by (rule quad_zero_arange)
  then show ?thesis by simp
qed

lemma sum_linear:
  "sum_list (map (\<lambda>x. a + b * x) xs) = real (length xs) * a + b * sum_list xs"
  by (induction xs) (simp_all add: algebra_simps)

lemma map2_mult_map: "map2 (*) xs (map f xs) = map (\<lambda>x. x * f x) xs"
  by (induction xs) simp_all

lemma map2_mult_self: "map2 (*) xs xs = map (\<lambda>x. x * x) xs"
  by (induction xs) simp_all

lemma sum_mult_linear:
  "sum_list (map2 (*) xs (map (\<lambda>x. a + b * x) xs))
     = a * sum_list xs + b * sum_list (map2 (*) xs (xs :: real list))"
  unfolding map2_mult_map map2_mult_self
  by (induction xs) (simp_all add: algebra_simps)

lemma linear_numerator:
  fixes k a b sx sxx :: real
  shows "k * (a * sx + b * sxx) - sx * (k * a + b * sx) = b * (k * sxx - sx * sx)"
  by (simp add: algebra_simps)

lemma polyfit1_slope_unfold:
  "fst (polyfit1 xs ys) =
     (real (length xs) * sum_list (map2 (*) xs ys) - sum_list xs * sum_list ys)
       / (real (length xs) * sum_list (map2 (*) xs xs) - sum_list xs * sum_list xs)"
  by (simp add: polyfit1_def Let_def)

lemma polyfit1_linear:
  assumes "2 \<le> k"
  shows "fst (polyfit1 (arange k) (map (\<lambda>x. a + b * x) (arange k))) = b"
proof -
  let ?xs = "arange k"
  let ?sx = "sum_list ?xs"
  let ?sxx = "sum_list (map2 (*) ?xs ?xs)"
  have det: "real k * ?sxx - ?sx * ?sx \<noteq> 0"
    using det_arange_pos[OF assms] by simp
  have e: "fst (polyfit1 ?xs (map (\<lambda>x. a + b * x) ?xs))
      = (real k * (a * ?sx + b * ?sxx) - ?sx * (real k * a + b * ?sx)) / (real k * ?sxx - ?sx * ?sx)"
    unfolding polyfit1_slope_unfold sum_linear sum_mult_linear length_arange ..
  show ?thesis
    unfolding e linear_numerator using det by (rule nonzero_mult_div_cancel_right)
qed

section \<open>Linear and constant series\<close>

lemma dropna_map_Some_f: "dropna (map (\<lambda>i. Some (f i)) xs) = map f xs"
  by (induction xs) simp_all

lemma tail_pos: "0 < n \<Longrightarrow> tail n xs = drop (length xs - nat n) xs"
  by (simp add: tail_def)

lemma upt_shift:
  assumes "k \<le> n"
  shows "[n - k..<n] = map (\<lambda>j. j + (n - k)) [0..<k]"
proof -
  have "map (\<lambda>j. j + (n - k)) [0..<k] = [n - k..<k + (n - k)]"
    by (rule map_add_upt)
  moreover have "k + (n - k) = n" using assms by simp
  ultimately show ?thesis by simp
qed

lemma window_linear_series:
  assumes "0 < w" and "nat w \<le> n"
  shows "dropna (tail w (linear_series a b n))
           = map (\<lambda>x. (a + b * real (n - nat w)) + b * x) (arange (nat w))"
proof -
  have "tail w (linear_series a b n) = map (\<lambda>i. Some (a + b * real i)) [n - nat w..<n]"
    using assms(1) by (simp add: tail_pos linear_series_def drop_map)
  then have "dropna (tail w (linear_series a b n)) = map (\<lambda>i. a + b * real i) [n - nat w..<n]"
    by (simp only: dropna_map_Some_f)
  also have "\<dots> = map (\<lambda>i. a + b * real i) (map (\<lambda>j. j + (n - nat w)) [0..<nat w])"
    using upt_shift[OF assms(2)] by simp
  also have "\<dots> = map (\<lambda>x. (a + b * real (n - nat w)) + b * x) (arange (nat w))"
    by (simp add: arange_def algebra_simps)
  finally show ?thesis .
qed

lemma trend_fit_linear:
  assumes "2 \<le> k"
  shows "trend_fit (map (\<lambda>x. a + b * x) (arange k)) tol =
           (if tol < b then (''Up'', b) else if b < - tol then (''Down'', b) else (''Sideways'', b))"
  using assms polyfit1_linear[OF assms, of a b]
  by (simp add: trend_fit_def Let_def length_arange)

lemma trend_direction_linear:
  assumes "2 \<le> w" and "nat w \<le> n"
  shows "trend_direction (Some (linear_series a b n)) w tol =
           (if tol < b then (''Up'', b) else if b < - tol then (''Down'', b) else (''Sideways'', b))"
proof -
  have w: "0 < w" and k: "2 \<le> nat w" using assms(1) by simp_all
  have "n \<noteq> 0" using assms by auto
  then have ne: "linear_series a b n \<noteq> []" by (simp add: linear_series_def)
  show ?thesis
    using ne by (simp only: trend_direction_def option.case if_False
        window_linear_series[OF w assms(2)] trend_fit_linear[OF k])
qed

lemma example_series:
  "map Some [10, 11, 12, 13, 14, 15, 16, 17, 18, 19, 20] = linear_series 10 1 11"
  by (simp add: linear_series_def upt_rec)

lemma ewm_loop_const:
  "ewm_loop \<alpha> (Some c) 1 (replicate n (Some c)) = replicate n (Some c)"
proof (induction n)
  case 0
  then show ?case by simp
next
  case (Suc n)
  have "(1 * (1 - \<alpha>) * c + \<alpha> * c) / (1 * (1 - \<alpha>) + \<alpha>) = c"
    by (simp add: algebra_simps)
  then show ?case using Suc by (simp add: Let_def)
qed

lemma ewm_mean_const: "ewm_mean \<alpha> (replicate n (Some c)) = replicate n (Some c)"
  by (cases n) (simp_all add: ewm_loop_const)

lemma ema_const:
  assumes "1 \<le> span_n"
  shows "ema (Some (replicate n (Some c))) span_n = Inr (replicate n (Some c))"
proof (cases "n = 0")
  case True
  then show ?thesis by (simp add: ema_def)
next
  case False
  then have "replicate n (Some c) \<noteq> []" by simp
  then have "ema (Some (replicate n (Some c))) span_n
      = Inr (ewm_mean (2 / (real_of_int span_n + 1)) (replicate n (Some c)))"
    using assms by (rule ema_ok)
  then show ?thesis by (simp only: ewm_mean_const)
qed

lemma series_sub_const:
  "series_sub (replicate n (Some c)) (replicate n (Some d)) = replicate n (Some (c - d))"
  by (simp add: series_sub_def)

lemma macd_const:
  assumes "1 \<le> fast" and "1 \<le> slow" and "1 \<le> signal"
  shows "macd (Some (replicate n (Some c))) fast slow signal
           = Inr (replicate n (Some 0), replicate n (Some 0), replicate n (Some 0))"
proof (cases "n = 0")
  case True
  then show ?thesis by (simp add: macd_def)
next
  case False
  then have ne: "replicate n (Some c) \<noteq> []" by simp
  have z: "series_sub (replicate n (Some c)) (replicate n (Some c)) = replicate n (Some 0)"
    by (simp add: series_sub_const)
  have z': "series_sub (replicate n (Some 0)) (replicate n (Some 0)) = replicate n (Some (0::real))"
    by (simp add: series_sub_const)
  show ?thesis
    using ne
    by (simp add: macd_def ema_const[OF assms(1)] ema_const[OF assms(2)] ema_const[OF assms(3)]
        z z' Let_def)
qed

lemma tail_replicate: "tail w (replicate n x) = replicate (length (tail w (replicate n x))) x"
  by (simp add: tail_def)

lemma dropna_replicate: "dropna (replicate m (Some c)) = replicate m c"
  by (induction m) simp_all

lemma replicate_linear: "replicate m c = map (\<lambda>x. c + 0 * x) (arange m)"
  by (simp add: arange_def map_replicate_const)

lemma trend_fit_const:
  assumes "0 \<le> tol"
  shows "trend_fit (replicate m c) tol = (''Sideways'', 0)"
proof (cases "m < 2")
  case True
  then show ?thesis by (simp add: trend_fit_def)
next
  case False
  then have k: "2 \<le> m" by simp
  have "trend_fit (map (\<lambda>x. c + 0 * x) (arange m)) tol = (''Sideways'', 0)"
    using assms by (simp only: trend_fit_linear[OF k]) simp
  then show ?thesis by (simp only: replicate_linear[symmetric])
qed

lemma trend_direction_const:
  assumes "0 \<le> tol"
  shows "trend_direction (Some (replicate n (Some c))) window tol = (''Sideways'', 0)"
proof -
  define m where "m = length (tail window (replicate n (Some c)))"
  have m: "tail window (replicate n (Some c)) = replicate m (Some c)"
    unfolding m_def by (rule tail_replicate)
  have "trend_fit (dropna (tail window (replicate n (Some c)))) tol = (''Sideways'', 0)"
    by (simp only: m dropna_replicate trend_fit_const[OF assms])
  then show ?thesis
    by (simp add: trend_direction_def)
qed

lemma suffix_drop_short:
  assumes "suffix ys xs" and "length ys \<le> k"
  shows "suffix ys (drop (length xs - k) xs)"
proof -
  obtain zs where xs: "xs = zs @ ys" using assms(1) by (auto simp: suffix_def)
  have "length xs - k \<le> length zs" using assms(2) by (simp add: xs)
  then have "drop (length xs - k) xs = drop (length xs - k) zs @ ys"
    by (simp add: xs)
  then show ?thesis by (simp add: suffix_def)
qed

lemma dropna_append: "dropna (xs @ ys) = dropna xs @ dropna ys"
  by (induction xs rule: dropna.induct) simp_all

lemma length_dropna_le: "length (dropna xs) \<le> length xs"
  by (induction xs rule: dropna.induct) simp_all

lemma length_dropna_valid: "None \<notin> set xs \<Longrightarrow> length (dropna xs) = length xs"
  by (induction xs rule: dropna.induct) simp_all

lemma suffix_dropna_drop: "suffix (dropna (drop j s)) (dropna s)"
proof -
  have "dropna s = dropna (take j s) @ dropna (drop j s)"
    by (simp only: dropna_append[symmetric] append_take_drop_id)
  then show ?thesis by (simp add: suffix_def)
qed

lemma window_suffix:
  assumes "0 < window"
  shows "suffix (dropna (tail window s)) (valid_window window s)"
proof -
  let ?k = "nat window"
  have t: "tail window s = drop (length s - ?k) s" using assms by (rule tail_pos)
  have v: "valid_window window s = drop (length (dropna s) - ?k) (dropna s)"
    using assms by (simp add: valid_window_def tail_pos)
  have "length (dropna (tail window s)) \<le> length (tail window s)"
    by (rule length_dropna_le)
  also have "\<dots> \<le> ?k" by (simp add: t)
  finally have le: "length (dropna (tail window s)) \<le> ?k" .
  have "suffix (dropna (tail window s)) (dropna s)"
    unfolding t by (rule suffix_dropna_drop)
  then show ?thesis unfolding v using le by (rule suffix_drop_short)
qed

lemma window_valid_eq:
  assumes "0 < window" and "None \<notin> set (tail window s)"
  shows "dropna (tail window s) = valid_window window s"
proof -
  let ?k = "nat window"
  have t: "tail window s = drop (length s - ?k) s" using assms(1) by (rule tail_pos)
  have v: "valid_window window s = drop (length (dropna s) - ?k) (dropna s)"
    using assms(1) by (simp add: valid_window_def tail_pos)
  have "length (valid_window window s) = min ?k (length (dropna s))"
    by (simp add: v)
  also have "\<dots> \<le> min ?k (length s)"
    using length_dropna_le[of s] by simp
  also have "\<dots> = length (tail window s)" by (simp add: t)
  also have "\<dots> = length (dropna (tail window s))"
    using assms(2) by (simp add: length_dropna_valid)
  finally have le: "length (valid_window window s) \<le> length (dropna (tail window s))" .
  have "suffix (dropna (tail window s)) (valid_window window s)"
    using assms(1) by (rule window_suffix)
  then obtain zs where zs: "valid_window window s = zs @ dropna (tail window s)"
    by (auto simp: suffix_def)
  then have "zs = []" using le by simp
  then show ?thesis using zs by simp
qed

section \<open>Window selection and trend\<close>

text \<open>
  C1 (amended): for every price series and every positive window, support_resistance and
  trend_direction compute over the valid points among the last \<open>window\<close> raw entries of
  the series (the window is taken first, missing values are dropped afterwards). These
  points are a suffix of the trailing \<open>window\<close> most-recent valid points, and are exactly
  those points when none of the last \<open>window\<close> raw entries is missing.
\<close>

theorem window_selection:
  assumes "0 < window"
  shows "support_resistance (Some s) window = sr_levels (dropna (tail window s))
         \<and> trend_direction (Some s) window tol = trend_fit (dropna (tail window s)) tol
         \<and> suffix (dropna (tail window s)) (valid_window window s)
         \<and> (None \<notin> set (tail window s) \<longrightarrow> dropna (tail window s) = valid_window window s)"
proof -
  have sr: "support_resistance (Some s) window = sr_levels (dropna (tail window s))"
    by (cases "s = []") (simp_all add: support_resistance_def tail_Nil)
  have td: "trend_direction (Some s) window tol = trend_fit (dropna (tail window s)) tol"
    by (cases "s = []") (simp_all add: trend_direction_def tail_Nil trend_fit_def)
  have su: "suffix (dropna (tail window s)) (valid_window window s)"
    using assms by (rule window_suffix)
  have eq: "None \<notin> set (tail window s) \<longrightarrow> dropna (tail window s) = valid_window window s"
    using assms by (intro impI window_valid_eq)
  show ?thesis using sr td su eq by (intro conjI)
qed

theorem window_selection_witness:
  "(0::int) < 2
   \<and> None \<notin> set (tail 2 [None, Some (1::real), Some 2])
   \<and> support_resistance (Some [None, Some 1, Some 2]) 2 = sr_levels (dropna (tail 2 [None, Some 1, Some 2]))
   \<and> trend_direction (Some [None, Some 1, Some 2]) 2 (1 / 10 ^ 6)
       = trend_fit (dropna (tail 2 [None, Some 1, Some 2])) (1 / 10 ^ 6)
   \<and> suffix (dropna (tail 2 [None, Some 1, Some 2])) (valid_window 2 [None, Some 1, Some 2])
   \<and> dropna (tail 2 [None, Some 1, Some 2]) = valid_window 2 [None, Some 1, Some 2]"
proof -
  have h1: "(0::int) < 2" by simp
  have h2: "None \<notin> set (tail 2 [None, Some (1::real), Some 2])"
    by (simp add: tail_def)
  note c = window_selection [OF h1, of "[None, Some 1, Some 2]" "1 / 10 ^ 6"]
  show ?thesis using h1 h2 c by blast
qed

theorem window_selection_counterexample:
  "support_resistance (Some [Some 1, Some 2, None]) 2 = (2, 2)
   \<and> sr_levels (valid_window 2 [Some 1, Some 2, None]) = (1, 2)
   \<and> trend_direction (Some [Some 1, Some 2, None]) 2 (1 / 10 ^ 6) = (''Sideways'', 0)
   \<and> trend_fit (valid_window 2 [Some 1, Some 2, None]) (1 / 10 ^ 6) = (''Up'', 1)"
proof -
  have t: "tail 2 [Some (1::real), Some 2, None] = [Some 2, None]"
    by (simp add: tail_def)
  have v: "valid_window 2 [Some 1, Some 2, None] = [1, 2]"
    by (simp add: valid_window_def tail_def)
  have a: "arange (Suc (Suc 0)) = [0, 1]"
    by (simp add: arange_def)
  have f: "trend_fit [1, 2] (1 / 10 ^ 6) = (''Up'', 1)"
    by (simp add: trend_fit_def a polyfit1_def Let_def)
  have c1: "support_resistance (Some [Some 1, Some 2, None]) 2 = (2, 2)"
    by (simp add: support_resistance_def t)
  have c2: "sr_levels (valid_window 2 [Some 1, Some 2, None]) = (1, 2)"
    by (simp add: v)
  have c3: "trend_direction (Some [Some 1, Some 2, None]) 2 (1 / 10 ^ 6) = (''Sideways'', 0)"
    by (simp add: trend_direction_def t trend_fit_def)
  have c4: "trend_fit (valid_window 2 [Some 1, Some 2, None]) (1 / 10 ^ 6) = (''Up'', 1)"
    unfolding v by (rule f)
  show ?thesis using c1 c2 c3 c4 by (intro conjI)
qed

text \<open>
  C6: when the values selected by trend_direction (the valid points among the last
  \<open>window\<close> entries) are fewer than 2, the result is the label Sideways with slope 0.
  Otherwise the slope returned is the slope of a least-squares line of the selected
  values against the positions 0, ..., k - 1, the slope of every least-squares line is
  that slope, and the label is decided by the slope and the tolerance alone: Up when
  the slope exceeds the tolerance, else Down when it is below the negated tolerance,
  else Sideways (for a tolerance that is not negative the first two cases exclude each
  other).
\<close>

theorem trend_direction_least_squares:
  "(length (dropna (tail window s)) < 2 \<longrightarrow>
      trend_direction (Some s) window tol = (''Sideways'', 0))
   \<and> (2 \<le> length (dropna (tail window s)) \<longrightarrow>
        (\<exists>c. least_squares (arange (length (dropna (tail window s)))) (dropna (tail window s))
               (snd (trend_direction (Some s) window tol)) c)
        \<and> (\<forall>m c. least_squares (arange (length (dropna (tail window s)))) (dropna (tail window s)) m c
               \<longrightarrow> m = snd (trend_direction (Some s) window tol))
        \<and> fst (trend_direction (Some s) window tol)
            = (if tol < snd (trend_direction (Some s) window tol) then ''Up''
               else if snd (trend_direction (Some s) window tol) < - tol then ''Down''
               else ''Sideways'')
        \<and> (0 \<le> tol \<and> snd (trend_direction (Some s) window tol) < - tol \<longrightarrow>
             fst (trend_direction (Some s) window tol) = ''Down''))"
proof -
  let ?y = "dropna (tail window s)"
  let ?x = "arange (length ?y)"
  have td: "trend_direction (Some s) window tol = trend_fit ?y tol"
    by (cases "s = []") (simp_all add: trend_direction_def tail_Nil trend_fit_def)
  have short: "trend_fit ?y tol = (''Sideways'', 0)" if "length ?y < 2"
    using that by (simp add: trend_fit_def)
  have long: "(\<exists>c. least_squares ?x ?y (snd (trend_fit ?y tol)) c)
        \<and> (\<forall>m c. least_squares ?x ?y m c \<longrightarrow> m = snd (trend_fit ?y tol))
        \<and> fst (trend_fit ?y tol)
            = (if tol < snd (trend_fit ?y tol) then ''Up''
               else if snd (trend_fit ?y tol) < - tol then ''Down''
               else ''Sideways'')
        \<and> (0 \<le> tol \<and> snd (trend_fit ?y tol) < - tol \<longrightarrow> fst (trend_fit ?y tol) = ''Down'')"
    if k: "2 \<le> length ?y"
  proof -
    obtain m c where p: "polyfit1 ?x ?y = (m, c)" by (cases "polyfit1 ?x ?y") auto
    have sl: "snd (trend_fit ?y tol) = m"
      using k p by (simp add: trend_fit_def Let_def)
    have lb: "fst (trend_fit ?y tol)
        = (if tol < m then ''Up'' else if m < - tol then ''Down'' else ''Sideways'')"
      using k p by (simp add: trend_fit_def Let_def)
    have ls: "least_squares ?x ?y m c"
      using k p by (rule polyfit1_arange_least_squares)
    have un: "m' = m" if "least_squares ?x ?y m' c'" for m' c'
      using k p that by (rule polyfit1_arange_unique)
    have dn: "fst (trend_fit ?y tol) = ''Down''" if "0 \<le> tol" "m < - tol"
      using that by (simp add: lb)
    show ?thesis
      unfolding sl using ls un lb dn by blast
  qed
  show ?thesis
    unfolding td using short long by blast
qed

theorem trend_direction_least_squares_witness:
  "2 \<le> length (dropna (tail 3 [Some 1, Some 3, None, Some 2]))
   \<and> (\<exists>c. least_squares (arange (length (dropna (tail 3 [Some 1, Some 3, None, Some 2]))))
             (dropna (tail 3 [Some 1, Some 3, None, Some 2]))
             (snd (trend_direction (Some [Some 1, Some 3, None, Some 2]) 3 (1 / 10 ^ 6))) c)
   \<and> length (dropna (tail 2 [Some 1, Some 3, None, Some 2])) < 2
   \<and> trend_direction (Some [Some 1, Some 3, None, Some 2]) 2 (1 / 10 ^ 6) = (''Sideways'', 0)"
proof -
  have h1: "2 \<le> length (dropna (tail 3 [Some 1, Some 3, None, Some 2]))"
    by (simp add: tail_def)
  have h2: "length (dropna (tail 2 [Some 1, Some 3, None, Some 2])) < 2"
    by (simp add: tail_def)
  note a = trend_direction_least_squares [of 3 "[Some 1, Some 3, None, Some 2]" "1 / 10 ^ 6"]
  note b = trend_direction_least_squares [of 2 "[Some 1, Some 3, None, Some 2]" "1 / 10 ^ 6"]
  show ?thesis using h1 h2 a b by blast
qed

text \<open>
  C7 (amended): on the series 10, 11, ..., 20 (11 points), support_resistance with
  window 5 returns (16, 20) and trend_direction with window 5 and the default tolerance
  returns the label Up with slope 1. More generally, on a linear series with step
  \<open>b > 0\<close> of length at least the window, with a window of at least 2, the slope is \<open>b\<close>,
  and the label is Up when \<open>b\<close> exceeds the tolerance.
\<close>

theorem linear_series_trend:
  "support_resistance (Some (map Some [10, 11, 12, 13, 14, 15, 16, 17, 18, 19, 20])) 5 = (16, 20)
   \<and> trend_direction (Some (map Some [10, 11, 12, 13, 14, 15, 16, 17, 18, 19, 20])) 5 (1 / 10 ^ 6)
       = (''Up'', 1)
   \<and> (2 \<le> window \<and> nat window \<le> n \<and> 0 < b \<longrightarrow>
        snd (trend_direction (Some (linear_series a b n)) window tol) = b
        \<and> 0 < snd (trend_direction (Some (linear_series a b n)) window tol)
        \<and> (tol < b \<longrightarrow> trend_direction (Some (linear_series a b n)) window tol = (''Up'', b)))"
proof -
  have sr: "support_resistance (Some (map Some [10, 11, 12, 13, 14, 15, 16, 17, 18, 19, 20])) 5
      = (16, 20)"
    by (simp add: support_resistance_def tail_def)
  have "trend_direction (Some (linear_series 10 1 11)) 5 (1 / 10 ^ 6) = (''Up'', 1)"
    by (subst trend_direction_linear) simp_all
  then have td: "trend_direction (Some (map Some [10, 11, 12, 13, 14, 15, 16, 17, 18, 19, 20])) 5
      (1 / 10 ^ 6) = (''Up'', 1)"
    by (simp only: example_series)
  have gen: "snd (trend_direction (Some (linear_series a b n)) window tol) = b
        \<and> 0 < snd (trend_direction (Some (linear_series a b n)) window tol)
        \<and> (tol < b \<longrightarrow> trend_direction (Some (linear_series a b n)) window tol = (''Up'', b))"
    if "2 \<le> window" "nat window \<le> n" "0 < b"
    using that by (simp add: trend_direction_linear)
  show ?thesis using sr td gen by blast
qed

theorem linear_series_trend_witness:
  "(2::int) \<le> 3 \<and> nat 3 \<le> (4::nat) \<and> (0::real) < 2 \<and> (1 / 10 ^ 6 :: real) < 2
   \<and> snd (trend_direction (Some (linear_series 7 2 4)) 3 (1 / 10 ^ 6)) = 2
   \<and> trend_direction (Some (linear_series 7 2 4)) 3 (1 / 10 ^ 6) = (''Up'', 2)"
proof -
  have h: "(2::int) \<le> 3 \<and> nat 3 \<le> (4::nat) \<and> (0::real) < 2" by simp
  have h': "(1 / 10 ^ 6 :: real) < 2" by simp
  note c = linear_series_trend [of 3 4 2 7 "1 / 10 ^ 6"]
  show ?thesis using h h' c by blast
qed

theorem linear_series_trend_counterexample:
  "(0::real) < 1 / 10 ^ 7
   \<and> length (linear_series 0 (1 / 10 ^ 7) 10) = 10
   \<and> trend_direction (Some (linear_series 0 (1 / 10 ^ 7) 10)) 10 (1 / 10 ^ 6)
       = (''Sideways'', 1 / 10 ^ 7)"
proof -
  have "trend_direction (Some (linear_series 0 (1 / 10 ^ 7) 10)) 10 (1 / 10 ^ 6)
       = (''Sideways'', 1 / 10 ^ 7)"
    by (subst trend_direction_linear) simp_all
  then show ?thesis by (simp add: linear_series_def)
qed

text \<open>
  C8: on a constant series (in particular 26 values 5.0), for periods of at least 1,
  ema returns the series itself, so the MACD line, the signal line and the histogram
  are 0 at every index; trend_direction returns the label Sideways with slope 0 for
  every window and every tolerance that is not negative.
\<close>

theorem constant_series:
  assumes "1 \<le> span_n" and "1 \<le> fast" and "1 \<le> slow" and "1 \<le> signal" and "0 \<le> tol"
  shows "ema (Some (replicate n (Some c))) span_n = Inr (replicate n (Some c))
         \<and> macd (Some (replicate n (Some c))) fast slow signal
             = Inr (replicate n (Some 0), replicate n (Some 0), replicate n (Some 0))
         \<and> trend_direction (Some (replicate n (Some c))) window tol = (''Sideways'', 0)"
  using ema_const[OF assms(1)] macd_const[OF assms(2,3,4)] trend_direction_const[OF assms(5)]
  by (intro conjI)

theorem constant_series_witness:
  "(1::int) \<le> 9 \<and> (1::int) \<le> 12 \<and> (1::int) \<le> 26 \<and> (0::real) \<le> 1 / 10 ^ 6
   \<and> ema (Some (replicate 26 (Some 5))) 9 = Inr (replicate 26 (Some 5))
   \<and> macd (Some (replicate 26 (Some 5))) 12 26 9
       = Inr (replicate 26 (Some 0), replicate 26 (Some 0), replicate 26 (Some 0))
   \<and> trend_direction (Some (replicate 26 (Some 5))) 10 (1 / 10 ^ 6) = (''Sideways'', 0)"
proof -
  have h1: "(1::int) \<le> 9" by simp
  have h2: "(1::int) \<le> 12" by simp
  have h3: "(1::int) \<le> 26" by simp
  have h5: "(0::real) \<le> 1 / 10 ^ 6" by simp
  note c = constant_series [OF h1 h2 h3 h1 h5, of 26 5 10]
  show ?thesis using h1 h2 h3 h5 c by (intro conjI) simp_all
qed

end
